theory Spec2Isabelle
  imports Main "HOL-Library.Word"
begin

unbundle bit_operations_syntax

section \<open>Data model\<close>

text \<open>
  The driver is C code for the Linux kernel. Its integer types are modelled as machine
  words: \<open>u8\<close>, \<open>u16\<close>, \<open>u32\<close> are unsigned words, \<open>s16\<close> and \<open>s32\<close> (C \<open>int\<close>) are the
  same words read through \<open>sint\<close>, and \<open>long\<close> is the 64-bit \<open>long\<close> of an LP64 kernel.
  Return codes (C \<open>int\<close>, never used in arithmetic) are HOL integers; a negative code is
  an error. The transmit buffer \<open>data->buf\<close> is a \<open>char *\<close>; its bytes are modelled as
  \<open>u8\<close>, the kernel being built with unsigned \<open>char\<close>.
\<close>

type_synonym u8 = "8 word"
type_synonym u16 = "16 word"
type_synonym u32 = "32 word"
type_synonym s16 = "16 word"
type_synonym s32 = "32 word"
type_synonym long = "64 word"

text \<open>\<open>#define USB_MUTEX_LOCKED_ERR -99\<close>\<close>

definition USB_MUTEX_LOCKED_ERR :: int where
  "USB_MUTEX_LOCKED_ERR = - 99"

text \<open>
  The errno numbers come from the kernel headers, which are not part of the repository;
  the values are those of \<open>errno-base.h\<close> and \<open>errno.h\<close>.
\<close>

definition EINVAL :: int where
  "EINVAL = 22"

definition ENODATA :: int where
  "ENODATA = 61"

definition EOPNOTSUPP :: int where
  "EOPNOTSUPP = 95"

text \<open>
  \<open>struct corsairpsu_data\<close>: the USB device of the handle and the address of its
  64-byte buffer. Devices and buffers are named by numbers.
\<close>

record corsairpsu_data =
  usbdev :: nat
  buf :: nat

text \<open>
  What a run leaves behind, in order: taking and releasing the mutex, CPU stores into
  and loads from the buffer at an address, and the two kinds of interrupt transfer on a
  device (the outbound one with the frame it carries).
\<close>

datatype event =
    Lock
  | Unlock
  | Store nat
  | Load nat
  | Out nat "u8 list"
  | In nat

text \<open>
  The state the driver runs in. \<open>usbdev_mutex\<close> is the one \<open>static DEFINE_MUTEX\<close> of
  the module; \<open>mem\<close> holds the buffer at each address. The USB side is an oracle:
  \<open>usb w n\<close> is the return code of the \<open>n\<close>-th call of \<open>usb_interrupt_msg\<close> together with
  the bytes the device delivers if that call is an inbound transfer, and \<open>ticks\<close> counts
  the calls made so far.
\<close>

record world =
  usbdev_mutex :: bool
  mem :: "nat \<Rightarrow> u8 list"
  usb :: "nat \<Rightarrow> int \<times> u8 list"
  ticks :: nat
  trace :: "event list"

section \<open>Transport\<close>

definition mutex_trylock :: "world \<Rightarrow> int \<times> world" where
  "mutex_trylock w =
     (if usbdev_mutex w then (0, w)
      else (1, w\<lparr>usbdev_mutex := True, trace := trace w @ [Lock]\<rparr>))"

definition mutex_unlock :: "world \<Rightarrow> world" where
  "mutex_unlock w = w\<lparr>usbdev_mutex := False, trace := trace w @ [Unlock]\<rparr>"

text \<open>\<open>memset(data->buf, 0, 64)\<close>\<close>

definition memset_buf :: "corsairpsu_data \<Rightarrow> world \<Rightarrow> world" where
  "memset_buf data w =
     w\<lparr>mem := (mem w)(buf data := replicate 64 0),
       trace := trace w @ [Store (buf data)]\<rparr>"

text \<open>\<open>data->buf[i] = v\<close>\<close>

definition store_buf :: "corsairpsu_data \<Rightarrow> nat \<Rightarrow> u8 \<Rightarrow> world \<Rightarrow> world" where
  "store_buf data i v w =
     w\<lparr>mem := (mem w)(buf data := (mem w (buf data))[i := v]),
       trace := trace w @ [Store (buf data)]\<rparr>"

text \<open>The value of \<open>data->buf[i]\<close>\<close>

definition load_buf :: "corsairpsu_data \<Rightarrow> nat \<Rightarrow> world \<Rightarrow> u8 \<times> world" where
  "load_buf data i w =
     (mem w (buf data) ! i, w\<lparr>trace := trace w @ [Load (buf data)]\<rparr>)"

text \<open>
  \<open>usb_interrupt_msg\<close> on the outbound pipe: the device is handed the buffer; only the
  return code comes back.
\<close>

definition usb_interrupt_msg_out :: "corsairpsu_data \<Rightarrow> world \<Rightarrow> int \<times> world" where
  "usb_interrupt_msg_out data w =
     (fst (usb w (ticks w)),
      w\<lparr>ticks := Suc (ticks w),
        trace := trace w @ [Out (usbdev data) (mem w (buf data))]\<rparr>)"

text \<open>
  \<open>usb_interrupt_msg\<close> on the inbound pipe: the device overwrites the front of the
  buffer with at most 64 delivered bytes.
\<close>

definition usb_interrupt_msg_in :: "corsairpsu_data \<Rightarrow> world \<Rightarrow> int \<times> world" where
  "usb_interrupt_msg_in data w =
     (let got = take 64 (snd (usb w (ticks w)));
          old = mem w (buf data)
      in (fst (usb w (ticks w)),
          w\<lparr>mem := (mem w)(buf data := got @ drop (length got) old),
            ticks := Suc (ticks w),
            trace := trace w @ [In (usbdev data)]\<rparr>))"

definition usb_send_recv_cmd :: "corsairpsu_data \<Rightarrow> world \<Rightarrow> int \<times> world" where
  "usb_send_recv_cmd data w =
     (case mutex_trylock w of (ret, w1) \<Rightarrow>
        if ret = 0 then (USB_MUTEX_LOCKED_ERR, w1)
        else
          (case usb_interrupt_msg_out data w1 of (ret, w2) \<Rightarrow>
             if ret < 0 then (ret, mutex_unlock w2)
             else
               (case usb_interrupt_msg_in data (memset_buf data w2) of (ret, w3) \<Rightarrow>
                  if ret < 0 then (ret, mutex_unlock w3)
                  else (0, mutex_unlock w3))))"

section \<open>Protocol client\<close>

text \<open>
  \<open>send_recv_cmd_impl\<close> never uses its \<open>result\<close> and \<open>result_size\<close> parameters; the
  model leaves them out.
\<close>

definition send_recv_cmd_impl ::
  "corsairpsu_data \<Rightarrow> u8 \<Rightarrow> u8 \<Rightarrow> u8 \<Rightarrow> world \<Rightarrow> int \<times> world" where
  "send_recv_cmd_impl data addr opcode opdata w =
     (case usb_send_recv_cmd data
             (store_buf data 2 opdata
               (store_buf data 1 opcode
                 (store_buf data 0 addr (memset_buf data w)))) of
        (ret, w1) \<Rightarrow> if ret < 0 then (ret, w1) else (0, w1))"

text \<open>
  The last block of \<open>send_recv_cmd\<close>, reached from both branches. The destination
  \<open>result\<close> is \<open>None\<close> for a \<open>NULL\<close> pointer and otherwise holds the bytes the destination
  has before the call; \<open>memcpy\<close> replaces its first \<open>result_size\<close> bytes.
\<close>

definition send_recv_cmd_copy ::
  "corsairpsu_data \<Rightarrow> u8 list option \<Rightarrow> nat \<Rightarrow> world \<Rightarrow> int \<times> u8 list option \<times> world" where
  "send_recv_cmd_copy data result result_size w =
     (case result of
        None \<Rightarrow> (0, None, w)
      | Some old \<Rightarrow>
          if 0 < result_size
          then (0,
                Some (take result_size (drop 2 (mem w (buf data))) @ drop result_size old),
                w\<lparr>trace := trace w @ [Load (buf data)]\<rparr>)
          else (0, Some old, w))"

definition send_recv_cmd ::
  "corsairpsu_data \<Rightarrow> u8 \<Rightarrow> u8 \<Rightarrow> u8 \<Rightarrow> u8 list option \<Rightarrow> nat \<Rightarrow> world
     \<Rightarrow> int \<times> u8 list option \<times> world" where
  "send_recv_cmd data addr opcode opdata result result_size w =
     (case send_recv_cmd_impl data addr opcode opdata w of (ret, w1) \<Rightarrow>
        if ret < 0 then (ret, result, w1)
        else
          (case load_buf data 1 w1 of (echo, w2) \<Rightarrow>
             if echo \<noteq> opcode then
               (case send_recv_cmd_impl data 0xfe 0x03 0x00 w2 of (ret, w3) \<Rightarrow>
                  if ret < 0 then (ret, result, w3)
                  else
                    (case send_recv_cmd_impl data addr opcode opdata w3 of (ret, w4) \<Rightarrow>
                       if ret < 0 then (ret, result, w4)
                       else
                         (case load_buf data 1 w4 of (echo, w5) \<Rightarrow>
                            if echo \<noteq> opcode then (- ENODATA, result, w5)
                            else send_recv_cmd_copy data result result_size w5)))
             else send_recv_cmd_copy data result result_size w2))"

section \<open>LINEAR11\<close>

text \<open>
  The C integer promotions are written out: \<open>(s16)v16\<close> and \<open>v16 & 0x7ff\<close> are computed
  as \<open>int\<close>, \<open>mantissa * scale\<close> is an \<open>int\<close> product that is then widened to \<open>long\<close>, and
  \<open>>>\<close> on a signed value is the arithmetic shift.
\<close>

definition pmbus_linear11_to_long :: "u16 \<Rightarrow> s32 \<Rightarrow> long" where
  "pmbus_linear11_to_long v16 scale =
     (let exponent = (ucast (signed_drop_bit 11 (scast v16 :: s32)) :: s16);
          mantissa = signed_drop_bit 5
                       (scast (ucast (push_bit 5 ((ucast v16 :: s32) AND 0x7ff)) :: s16) :: s32);
          val = (scast (mantissa * scale) :: long)
      in if 0 \<le> sint exponent
         then push_bit (nat (sint exponent)) val
         else signed_drop_bit (nat (- sint exponent)) val)"

text \<open>
  The reference the specification gives for the decode, on unbounded integers: the low
  11 bits and the high 5 bits of the value, each read as two's complement, and the
  product with the scale shifted by the exponent. On integers the left shift by \<open>k\<close> is
  the product with \<open>2 ^ k\<close> and the arithmetic right shift by \<open>k\<close> is the floor division
  by \<open>2 ^ k\<close>.
\<close>

definition linear11_mantissa :: "u16 \<Rightarrow> int" where
  "linear11_mantissa v =
     (let y = uint v mod 2048 in if y < 1024 then y else y - 2048)"

definition linear11_exponent :: "u16 \<Rightarrow> int" where
  "linear11_exponent v =
     (let n = uint v div 2048 in if n < 16 then n else n - 32)"

definition linear11_reference :: "u16 \<Rightarrow> int \<Rightarrow> int" where
  "linear11_reference v scale =
     (let y = linear11_mantissa v; n = linear11_exponent v
      in if 0 \<le> n then (y * scale) * 2 ^ nat n
         else (y * scale) div 2 ^ nat (- n))"

section \<open>Sensor reads\<close>

text \<open>
  A \<open>u16\<close> or \<open>u32\<close> local variable as the bytes \<open>memcpy\<close> sees, and back, on a
  little-endian host.
\<close>

definition u16_bytes :: "u16 \<Rightarrow> u8 list" where
  "u16_bytes x = [ucast x, ucast (drop_bit 8 x)]"

definition le16 :: "u8 list \<Rightarrow> u16" where
  "le16 bs = (ucast (bs ! 0) :: u16) OR push_bit 8 (ucast (bs ! 1))"

definition u32_bytes :: "u32 \<Rightarrow> u8 list" where
  "u32_bytes x = [ucast x, ucast (drop_bit 8 x), ucast (drop_bit 16 x), ucast (drop_bit 24 x)]"

definition le32 :: "u8 list \<Rightarrow> u32" where
  "le32 bs = (ucast (bs ! 0) :: u32) OR push_bit 8 (ucast (bs ! 1))
               OR push_bit 16 (ucast (bs ! 2)) OR push_bit 24 (ucast (bs ! 3))"

text \<open>
  \<open>enum hwmon_sensor_types\<close> and the attribute numbers are declared in the kernel's
  \<open>hwmon.h\<close>, not in the repository. The sensor types are modelled by name; the numbers
  the attribute switch compares with are a parameter of \<open>corsairpsu_read\<close>
  (\<open>chip_label\<close> is the number of the enumerator \<open>hwmon_chip\<close>, which the source uses as
  a case label for \<open>attr\<close>).
\<close>

datatype hwmon_sensor_types =
    hwmon_chip
  | hwmon_temp
  | hwmon_in
  | hwmon_curr
  | hwmon_power
  | hwmon_energy
  | hwmon_humidity
  | hwmon_fan
  | hwmon_pwm
  | hwmon_intrusion

record hwmon_attrs =
  chip_label :: u32
  hwmon_temp_input :: u32
  hwmon_fan_input :: u32
  hwmon_in_input :: u32
  hwmon_curr_input :: u32
  hwmon_power_input :: u32

text \<open>
  The label \<open>err\<close> of \<open>corsairpsu_read\<close>.
\<close>

definition corsairpsu_read_err :: "int \<Rightarrow> int" where
  "corsairpsu_read_err ret =
     (if ret = USB_MUTEX_LOCKED_ERR then - EINVAL else - EOPNOTSUPP)"

text \<open>
  \<open>corsairpsu_read\<close> repeats two statement sequences. The first reads one value on
  page 3 into the local \<open>reading\<close> and decodes it; the second selects a rail on page 2
  before doing the same. A result is the return code, the value stored through \<open>val\<close>
  (\<open>None\<close> when nothing is stored) and the state. \<open>reading\<close> is the content the
  uninitialised local has on entry.
\<close>

definition corsairpsu_read_value ::
  "corsairpsu_data \<Rightarrow> u8 \<Rightarrow> s32 \<Rightarrow> u16 \<Rightarrow> world \<Rightarrow> int \<times> long option \<times> world" where
  "corsairpsu_read_value data opcode scale reading w =
     (case send_recv_cmd data 0x03 opcode 0x00 (Some (u16_bytes reading)) 2 w of
        (ret, result, w1) \<Rightarrow>
          if ret < 0 then (corsairpsu_read_err ret, None, w1)
          else (0,
                Some (pmbus_linear11_to_long
                        (case result of Some bs \<Rightarrow> le16 bs | None \<Rightarrow> reading) scale),
                w1))"

definition corsairpsu_read_rail ::
  "corsairpsu_data \<Rightarrow> u8 \<Rightarrow> u8 \<Rightarrow> s32 \<Rightarrow> u16 \<Rightarrow> world \<Rightarrow> int \<times> long option \<times> world" where
  "corsairpsu_read_rail data rail opcode scale reading w =
     (case send_recv_cmd data 0x02 0x00 rail None 0 w of
        (ret, result, w1) \<Rightarrow>
          if ret < 0 then (corsairpsu_read_err ret, None, w1)
          else corsairpsu_read_value data opcode scale reading w1)"

definition corsairpsu_read ::
  "hwmon_attrs \<Rightarrow> corsairpsu_data \<Rightarrow> hwmon_sensor_types \<Rightarrow> u32 \<Rightarrow> int \<Rightarrow> u16 \<Rightarrow> world
     \<Rightarrow> int \<times> long option \<times> world" where
  "corsairpsu_read K data type attr channel reading w =
     (case type of
        hwmon_chip \<Rightarrow>
          if attr = chip_label K then
            (if channel = 0 then corsairpsu_read_value data 0x8D 1000 reading w
             else (- EOPNOTSUPP, None, w))
          else (- EOPNOTSUPP, None, w)
      | hwmon_temp \<Rightarrow>
          if attr = hwmon_temp_input K then
            (if channel = 0 then corsairpsu_read_value data 0x8D 1000 reading w
             else if channel = 1 then corsairpsu_read_value data 0x8E 1000 reading w
             else (- EOPNOTSUPP, None, w))
          else (- EOPNOTSUPP, None, w)
      | hwmon_fan \<Rightarrow>
          if attr = hwmon_fan_input K then
            (if channel = 0 then corsairpsu_read_value data 0x90 0 reading w
             else (- EOPNOTSUPP, None, w))
          else (- EOPNOTSUPP, None, w)
      | hwmon_in \<Rightarrow>
          if attr = hwmon_in_input K then
            (if channel = 0 then corsairpsu_read_value data 0x88 1000 reading w
             else if channel = 1 then corsairpsu_read_rail data 0x00 0x8B 1000 reading w
             else if channel = 2 then corsairpsu_read_rail data 0x01 0x8B 1000 reading w
             else if channel = 3 then corsairpsu_read_rail data 0x02 0x8B 1000 reading w
             else (- EOPNOTSUPP, None, w))
          else (- EOPNOTSUPP, None, w)
      | hwmon_curr \<Rightarrow>
          if attr = hwmon_curr_input K then
            (if channel = 0 then corsairpsu_read_rail data 0x00 0x8C 1000 reading w
             else if channel = 1 then corsairpsu_read_rail data 0x01 0x8C 1000 reading w
             else if channel = 2 then corsairpsu_read_rail data 0x02 0x8C 1000 reading w
             else (- EOPNOTSUPP, None, w))
          else (- EOPNOTSUPP, None, w)
      | hwmon_power \<Rightarrow>
          if attr = hwmon_power_input K then
            (if channel = 0 then corsairpsu_read_value data 0xEE 1000000 reading w
             else if channel = 1 then corsairpsu_read_rail data 0x00 0x96 1000000 reading w
             else if channel = 2 then corsairpsu_read_rail data 0x01 0x96 1000000 reading w
             else if channel = 3 then corsairpsu_read_rail data 0x02 0x96 1000000 reading w
             else (- EOPNOTSUPP, None, w))
          else (- EOPNOTSUPP, None, w)
      | _ \<Rightarrow> (- EOPNOTSUPP, None, w))"

text \<open>The label tables and \<open>corsairpsu_read_labels\<close>, for the channels the tables cover.\<close>

definition corsairpsu_in_label :: "string list" where
  "corsairpsu_in_label = [''voltage supply'', ''voltage 12v'', ''voltage 5v'', ''voltage 3.3v'']"

definition corsairpsu_curr_label :: "string list" where
  "corsairpsu_curr_label = [''current 12v'', ''current 5v'', ''current 3.3v'']"

definition corsairpsu_power_label :: "string list" where
  "corsairpsu_power_label = [''power total'', ''power 12v'', ''power 5v'', ''power 3.3v'']"

section \<open>Custom attributes\<close>

text \<open>The decimal digits \<open>sprintf\<close> prints for \<open>%u\<close>.\<close>

fun decimal :: "nat \<Rightarrow> string" where
  "decimal n =
     (if n < 10 then [''0123456789'' ! n]
      else decimal (n div 10) @ [''0123456789'' ! (n mod 10)])"

text \<open>
  \<open>u32_show\<close>: the return code of \<open>send_recv_cmd\<close> is dropped and the local
  \<open>reading\<close>, whose content on entry is a parameter, is printed with \<open>"%u\n"\<close>. The result
  is the length returned, the text written to the sysfs buffer, and the state.
\<close>

definition u32_show :: "corsairpsu_data \<Rightarrow> u16 \<Rightarrow> u32 \<Rightarrow> world \<Rightarrow> int \<times> string \<times> world" where
  "u32_show data opcode reading w =
     (case send_recv_cmd data 0x03 (ucast opcode) 0x00 (Some (u32_bytes reading)) 4 w of
        (ret, result, w1) \<Rightarrow>
          (let printed = decimal (unat (case result of Some bs \<Rightarrow> le32 bs | None \<Rightarrow> reading))
                           @ [CHR 0x0A]
           in (int (length printed), printed, w1)))"

definition total_uptime_show :: "corsairpsu_data \<Rightarrow> u32 \<Rightarrow> world \<Rightarrow> int \<times> string \<times> world" where
  "total_uptime_show data reading w = u32_show data 0xD1 reading w"

definition current_uptime_show :: "corsairpsu_data \<Rightarrow> u32 \<Rightarrow> world \<Rightarrow> int \<times> string \<times> world" where
  "current_uptime_show data reading w = u32_show data 0xD2 reading w"

definition ocp_mode_show :: "corsairpsu_data \<Rightarrow> u32 \<Rightarrow> world \<Rightarrow> int \<times> string \<times> world" where
  "ocp_mode_show data reading w = u32_show data 0xD8 reading w"

definition fan_control_show :: "corsairpsu_data \<Rightarrow> u32 \<Rightarrow> world \<Rightarrow> int \<times> string \<times> world" where
  "fan_control_show data reading w = u32_show data 0xF0 reading w"

section \<open>Notions the properties are stated with\<close>

text \<open>The command frame of the specification: page, opcode, operand and 61 zero bytes.\<close>

definition frame :: "u8 \<Rightarrow> u8 \<Rightarrow> u8 \<Rightarrow> u8 list" where
  "frame addr opcode opdata = [addr, opcode, opdata] @ replicate 61 0"

text \<open>The frames of the outbound transfers of a trace, in order.\<close>

fun outs :: "event list \<Rightarrow> u8 list list" where
  "outs [] = []"
| "outs (Out d f # es) = f # outs es"
| "outs (Lock # es) = outs es"
| "outs (Unlock # es) = outs es"
| "outs (Store a # es) = outs es"
| "outs (Load a # es) = outs es"
| "outs (In d # es) = outs es"

text \<open>What a run from state \<open>w\<close> to state \<open>w'\<close> added to the trace.\<close>

definition events_since :: "world \<Rightarrow> world \<Rightarrow> event list" where
  "events_since w w' = drop (length (trace w)) (trace w')"

text \<open>
  For a USB oracle: the buffer after the inbound transfer that is call \<open>k\<close> (the buffer was
  zeroed just before), and the return code of an exchange whose outbound transfer is
  call \<open>k\<close> and whose inbound transfer, if it comes to it, is call \<open>k + 1\<close>.
\<close>

definition response :: "(nat \<Rightarrow> int \<times> u8 list) \<Rightarrow> nat \<Rightarrow> u8 list" where
  "response oracle k =
     (let got = take 64 (snd (oracle k)) in got @ drop (length got) (replicate 64 0))"

definition exchange_ret :: "(nat \<Rightarrow> int \<times> u8 list) \<Rightarrow> nat \<Rightarrow> int" where
  "exchange_ret oracle k =
     (if fst (oracle k) < 0 then fst (oracle k)
      else if fst (oracle (Suc k)) < 0 then fst (oracle (Suc k))
      else 0)"

text \<open>
  The events of one call of \<open>send_recv_cmd_impl\<close> that gets the mutex: four stores build
  the frame, then the exchange, whose inbound half happens when the outbound transfer
  succeeded. And the events of the final copy of \<open>send_recv_cmd\<close>.
\<close>

definition exchange_events :: "corsairpsu_data \<Rightarrow> u8 list \<Rightarrow> bool \<Rightarrow> event list" where
  "exchange_events data f sent =
     [Store (buf data), Store (buf data), Store (buf data), Store (buf data), Lock,
      Out (usbdev data) f]
     @ (if sent then [Store (buf data), In (usbdev data)] else []) @ [Unlock]"

definition copy_events :: "corsairpsu_data \<Rightarrow> u8 list option \<Rightarrow> nat \<Rightarrow> event list" where
  "copy_events data result n = (if result \<noteq> None \<and> 0 < n then [Load (buf data)] else [])"

text \<open>The destination after \<open>memcpy\<close> has copied \<open>n\<close> bytes out of a response.\<close>

definition copy_result :: "u8 list \<Rightarrow> u8 list option \<Rightarrow> nat \<Rightarrow> u8 list option" where
  "copy_result resp result n =
     (case result of
        None \<Rightarrow> None
      | Some old \<Rightarrow> if 0 < n then Some (take n (drop 2 resp) @ drop n old) else Some old)"

text \<open>
  A device that answers the calls of the oracle from a list, and with success and no
  data once the list has run out.
\<close>

definition scripted :: "(int \<times> u8 list) list \<Rightarrow> nat \<Rightarrow> int \<times> u8 list" where
  "scripted xs n = (if n < length xs then xs ! n else (0, []))"

text \<open>
  A trace keeps the buffer inside the critical section when every store, load and
  transfer happens between a \<open>Lock\<close> and the next \<open>Unlock\<close>. The flag says whether the
  mutex is held where the trace starts.
\<close>

fun guarded :: "bool \<Rightarrow> event list \<Rightarrow> bool" where
  "guarded held [] = True"
| "guarded held (Lock # es) = guarded True es"
| "guarded held (Unlock # es) = guarded False es"
| "guarded held (Store a # es) = (held \<and> guarded held es)"
| "guarded held (Load a # es) = (held \<and> guarded held es)"
| "guarded held (Out d f # es) = (held \<and> guarded held es)"
| "guarded held (In d # es) = (held \<and> guarded held es)"

text \<open>
  The states in which an exchange on a device is in flight: the mutex has been taken
  and, one after the other, the outbound transfer, the zeroing of the buffer and the
  inbound transfer have been done, the mutex not yet released.
\<close>

definition in_flight :: "corsairpsu_data \<Rightarrow> world \<Rightarrow> world list" where
  "in_flight data w =
     (let w1 = snd (mutex_trylock w);
          w2 = snd (usb_interrupt_msg_out data w1);
          w3 = memset_buf data w2;
          w4 = snd (usb_interrupt_msg_in data w3)
      in [w1, w2, w3, w4])"

text \<open>
  The per-rail readings. The channel of a reading is where the label tables of the
  source name it; the rail index and the opcode are those of the specification.
\<close>

datatype rail = Rail_12V | Rail_5V | Rail_3V3

datatype quantity = Voltage | Current | Power

fun rail_index :: "rail \<Rightarrow> u8" where
  "rail_index Rail_12V = 0"
| "rail_index Rail_5V = 1"
| "rail_index Rail_3V3 = 2"

fun rail_name :: "rail \<Rightarrow> string" where
  "rail_name Rail_12V = ''12v''"
| "rail_name Rail_5V = ''5v''"
| "rail_name Rail_3V3 = ''3.3v''"

fun quantity_opcode :: "quantity \<Rightarrow> u8" where
  "quantity_opcode Voltage = 0x8B"
| "quantity_opcode Current = 0x8C"
| "quantity_opcode Power = 0x96"

fun quantity_name :: "quantity \<Rightarrow> string" where
  "quantity_name Voltage = ''voltage''"
| "quantity_name Current = ''current''"
| "quantity_name Power = ''power''"

fun quantity_type :: "quantity \<Rightarrow> hwmon_sensor_types" where
  "quantity_type Voltage = hwmon_in"
| "quantity_type Current = hwmon_curr"
| "quantity_type Power = hwmon_power"

fun quantity_attr :: "hwmon_attrs \<Rightarrow> quantity \<Rightarrow> u32" where
  "quantity_attr K Voltage = hwmon_in_input K"
| "quantity_attr K Current = hwmon_curr_input K"
| "quantity_attr K Power = hwmon_power_input K"

fun quantity_labels :: "quantity \<Rightarrow> string list" where
  "quantity_labels Voltage = corsairpsu_in_label"
| "quantity_labels Current = corsairpsu_curr_label"
| "quantity_labels Power = corsairpsu_power_label"

fun rail_channel :: "quantity \<Rightarrow> rail \<Rightarrow> int" where
  "rail_channel Voltage Rail_12V = 1"
| "rail_channel Voltage Rail_5V = 2"
| "rail_channel Voltage Rail_3V3 = 3"
| "rail_channel Current Rail_12V = 0"
| "rail_channel Current Rail_5V = 1"
| "rail_channel Current Rail_3V3 = 2"
| "rail_channel Power Rail_12V = 1"
| "rail_channel Power Rail_5V = 2"
| "rail_channel Power Rail_3V3 = 3"

fun quantity_scale :: "quantity \<Rightarrow> s32" where
  "quantity_scale Voltage = 1000"
| "quantity_scale Current = 1000"
| "quantity_scale Power = 1000000"

text \<open>States and handles to run the driver on.\<close>

definition idle_world :: "(nat \<Rightarrow> int \<times> u8 list) \<Rightarrow> world" where
  "idle_world oracle =
     \<lparr>usbdev_mutex = False, mem = (\<lambda>a. replicate 64 0), usb = oracle, ticks = 0, trace = []\<rparr>"

definition psu0 :: corsairpsu_data where
  "psu0 = \<lparr>usbdev = 0, buf = 0\<rparr>"

definition psu1 :: corsairpsu_data where
  "psu1 = \<lparr>usbdev = 1, buf = 1\<rparr>"

text \<open>The state in which another exchange holds the mutex.\<close>

definition busy_world :: world where
  "busy_world = snd (mutex_trylock (idle_world (scripted [])))"

text \<open>
  One numbering of the attributes, as in a recent \<open>hwmon.h\<close>; no property depends on
  the numbers.
\<close>

definition linux_attrs :: hwmon_attrs where
  "linux_attrs =
     \<lparr>chip_label = 0, hwmon_temp_input = 1, hwmon_fan_input = 1, hwmon_in_input = 1,
      hwmon_curr_input = 1, hwmon_power_input = 9\<rparr>"

text \<open>
  Devices. The healthy one answers the read of the first temperature; the fan one
  reports 1000 RPM; the rail one answers a rail selection and then a current read. The
  stubborn one echoes a wrong opcode before and after a good handshake; the forgetful one
  echoes wrong opcodes for the command and for the handshake and then answers the
  resent command. The unplugged one fails the first outbound transfer, the mute one the
  first inbound transfer, the faulty one the outbound transfer of the handshake.
\<close>

definition healthy_device :: "nat \<Rightarrow> int \<times> u8 list" where
  "healthy_device = scripted [(0, []), (0, [0x03, 0x8D, 0xD6, 0x0A])]"

definition fan_device :: "nat \<Rightarrow> int \<times> u8 list" where
  "fan_device = scripted [(0, []), (0, [0x03, 0x90, 0xE8, 0x03])]"

definition rail_device :: "nat \<Rightarrow> int \<times> u8 list" where
  "rail_device = scripted [(0, []), (0, [0x02, 0x00]), (0, []), (0, [0x03, 0x8C, 0xD6, 0x0A])]"

definition stubborn_device :: "nat \<Rightarrow> int \<times> u8 list" where
  "stubborn_device =
     scripted [(0, []), (0, [0, 0xFF]), (0, []), (0, [0, 0x03]), (0, []), (0, [0, 0xFF])]"

definition forgetful_device :: "nat \<Rightarrow> int \<times> u8 list" where
  "forgetful_device =
     scripted [(0, []), (0, [0, 0xFF]), (0, []), (0, [0, 0x55]), (0, []),
               (0, [0x03, 0x8D, 0xD6, 0x0A])]"

definition unplugged_device :: "nat \<Rightarrow> int \<times> u8 list" where
  "unplugged_device = scripted [(- 19, [])]"

definition mute_device :: "nat \<Rightarrow> int \<times> u8 list" where
  "mute_device = scripted [(0, []), (- 110, [])]"

definition faulty_device :: "nat \<Rightarrow> int \<times> u8 list" where
  "faulty_device = scripted [(0, []), (0, [0, 0xFF]), (- 71, [])]"

section \<open>LINEAR11: the decode against its reference\<close>

text \<open>Words written as \<open>word_of_int\<close> of an integer in range, and their readings.\<close>

lemma sint_wi16: "- 32768 \<le> k \<Longrightarrow> k < 32768 \<Longrightarrow> sint (word_of_int k :: 16 word) = k"
  by (simp add: sint_sbintrunc' signed_take_bit_int_eq_self)

lemma sint_wi32: "- 2147483648 \<le> k \<Longrightarrow> k < 2147483648 \<Longrightarrow> sint (word_of_int k :: 32 word) = k"
  by (simp add: sint_sbintrunc' signed_take_bit_int_eq_self)

lemma sint_wi64: "- 9223372036854775808 \<le> k \<Longrightarrow> k < 9223372036854775808 \<Longrightarrow> sint (word_of_int k :: 64 word) = k"
  by (simp add: sint_sbintrunc' signed_take_bit_int_eq_self)

lemma ucast_wi_32_16: "(ucast (word_of_int k :: 32 word) :: 16 word) = word_of_int k"
  by (simp add: unsigned_of_int word_of_int_eq_iff)

lemma scast_16_32: "(scast (w :: 16 word) :: 32 word) = word_of_int (sint w)"
  by (rule scast_eq)

lemma sdrop_wi32: "- 2147483648 \<le> k \<Longrightarrow> k < 2147483648 \<Longrightarrow>
   signed_drop_bit n (word_of_int k :: 32 word) = word_of_int (k div 2 ^ n)"
proof -
  assume a: "- 2147483648 \<le> k" "k < 2147483648"
  have "sint (signed_drop_bit n (word_of_int k :: 32 word)) = k div 2 ^ n"
    using a by (simp add: sint_signed_drop_bit_eq sint_wi32 drop_bit_eq_div)
  then have "word_of_int (sint (signed_drop_bit n (word_of_int k :: 32 word))) = (word_of_int (k div 2 ^ n) :: 32 word)"
    by simp
  then show ?thesis by simp
qed

lemma push_wi: "push_bit n (word_of_int k :: 'a::len word) = word_of_int (k * 2 ^ n)"
  by (simp add: push_bit_eq_mult)


lemma uint_ucast_16_32: "uint (ucast (v::u16) :: s32) = uint v"
  by (simp add: unsigned_ucast_eq take_bit_int_eq_self_iff) (use uint_lt2p [of v] in simp)

lemma low11_wi: "((ucast (v::u16) :: s32) AND 0x7ff) = word_of_int (uint v mod 2048)"
proof -
  have m: "(0x7ff :: s32) = mask 11" by (simp add: mask_eq_decr_exp)
  have "(ucast v :: s32) AND mask 11 = word_of_int (uint (ucast v :: s32) mod 2 ^ 11)"
    by (rule and_mask_mod_2p)
  then show ?thesis
    by (simp only: m uint_ucast_16_32) simp
qed

lemma sint16_cases: "sint (v::u16) = (if uint v < 32768 then uint v else uint v - 65536)"
proof -
  have b: "0 \<le> uint v" "uint v < 65536" using uint_lt2p [of v] by simp_all
  have s: "sint v = (uint v + 32768) mod 65536 - 32768"
    by (simp add: sint_uint signed_take_bit_eq_take_bit_shift take_bit_eq_mod)
  show ?thesis
  proof (cases "uint v < 32768")
    case True
    then have "(uint v + 32768) mod 65536 = uint v + 32768"
      using b by (intro mod_pos_pos_trivial) simp_all
    with True s show ?thesis by simp
  next
    case False
    have "(uint v + 32768) mod 65536 = uint v - 32768"
      by (rule int_mod_pos_eq [where q = 1]) (use False b in simp_all)
    with False s show ?thesis by simp
  qed
qed


lemma exponent_word:
  "sint (ucast (signed_drop_bit 11 (scast (v::u16) :: s32)) :: s16) = linear11_exponent v"
proof -
  define e m where "e = uint v div 2048" and "m = uint v mod 2048"
  have u: "uint v = 2048 * e + m" and m: "0 \<le> m" "m < 2048"
    by (simp_all add: e_def m_def)
  have b: "0 \<le> uint v" "uint v < 65536" using uint_lt2p [of v] by simp_all
  have r: "- 32768 \<le> sint v" "sint v < 32768"
    using sint_greater_eq [of v] sint_less [of v] by simp_all
  have d: "sint v div 2048 = (if e < 16 then e else e - 32)"
  proof (cases "uint v < 32768")
    case True
    then have "e < 16" using u m by linarith
    with True show ?thesis by (simp add: sint16_cases e_def)
  next
    case False
    then have "\<not> e < 16" using u m by linarith
    moreover have "(uint v - 65536) div 2048 = e - 32"
      by (rule int_div_pos_eq [where r = m]) (use u m in simp_all)
    ultimately show ?thesis using False by (simp add: sint16_cases)
  qed
  have e: "0 \<le> e" "e < 32" using u m b by linarith+
  have "(ucast (signed_drop_bit 11 (scast v :: s32)) :: s16) = word_of_int (sint v div 2048)"
    using r by (simp only: scast_16_32 sdrop_wi32 ucast_wi_32_16) simp
  then have "sint (ucast (signed_drop_bit 11 (scast v :: s32)) :: s16) = sint v div 2048"
    using e d by (simp add: sint_wi16)
  with d show ?thesis by (simp add: linear11_exponent_def e_def)
qed

lemma mantissa_word:
  "sint (signed_drop_bit 5 (scast (ucast (push_bit 5 ((ucast (v::u16) :: s32) AND 0x7ff)) :: s16) :: s32))
     = linear11_mantissa v"
proof -
  define m where "m = uint v mod 2048"
  have m: "0 \<le> m" "m < 2048" by (simp_all add: m_def)
  define W :: s16 where "W = word_of_int (m * 32)"
  have uW: "uint W = m * 32"
  proof -
    have "uint (word_of_int (m * 32) :: s16) = take_bit 16 (m * 32)"
      by (simp only: uint_word_of_int_eq) simp
    also have "\<dots> = m * 32"
      by (rule take_bit_int_eq_self) (use m in simp_all)
    finally show ?thesis by (simp only: W_def)
  qed
  have sW: "sint W = (if m < 1024 then m * 32 else m * 32 - 65536)"
    using m by (simp add: sint16_cases uW)
  have r: "- 32768 \<le> sint W" "sint W < 32768"
    using sint_greater_eq [of W] sint_less [of W] by simp_all
  have dv: "sint W div 32 = (if m < 1024 then m else m - 2048)"
  proof (cases "m < 1024")
    case True then show ?thesis by (simp add: sW)
  next
    case False
    have "(m * 32 - 65536) div 32 = m - 2048"
      by (rule int_div_pos_eq [where r = 0]) simp_all
    with False show ?thesis by (simp add: sW)
  qed
  have "(ucast (push_bit 5 ((ucast v :: s32) AND 0x7ff)) :: s16) = W"
    by (simp only: low11_wi push_wi ucast_wi_32_16 W_def m_def) simp
  then have "signed_drop_bit 5 (scast (ucast (push_bit 5 ((ucast v :: s32) AND 0x7ff)) :: s16) :: s32)
      = signed_drop_bit 5 (word_of_int (sint W) :: s32)"
    by (simp only: scast_16_32)
  moreover have "sint (signed_drop_bit 5 (word_of_int (sint W) :: s32)) = sint W div 32"
    using r by (simp only: sint_signed_drop_bit_eq sint_wi32 drop_bit_eq_div) simp
  ultimately show ?thesis by (simp add: dv linear11_mantissa_def m_def)
qed


lemma linear11_exponent_range: "- 16 \<le> linear11_exponent v \<and> linear11_exponent v \<le> 15"
proof -
  define e m where "e = uint v div 2048" and "m = uint v mod 2048"
  have u: "uint v = 2048 * e + m" and m: "0 \<le> m" "m < 2048"
    by (simp_all add: e_def m_def)
  have "0 \<le> uint v" "uint v < 65536" using uint_lt2p [of v] by simp_all
  with u m have "0 \<le> e" "e < 32" by linarith+
  then show ?thesis by (simp add: linear11_exponent_def Let_def flip: e_def)
qed

lemma linear11_mantissa_range: "- 1024 \<le> linear11_mantissa v \<and> linear11_mantissa v \<le> 1023"
proof -
  define m where "m = uint v mod 2048"
  have "0 \<le> m" "m < 2048" by (simp_all add: m_def)
  then show ?thesis by (simp add: linear11_mantissa_def Let_def flip: m_def)
qed

lemma scaled_range:
  assumes "- 1024 \<le> (y::int)" "y \<le> 1023" "\<bar>s\<bar> \<le> 1048576"
  shows "\<bar>y * s\<bar> \<le> 1073741824"
proof -
  have "\<bar>y\<bar> \<le> 1024" using assms by linarith
  then have "\<bar>y\<bar> * \<bar>s\<bar> \<le> 1024 * 1048576"
    using assms(3) by (intro mult_mono) simp_all
  then show ?thesis by (simp add: abs_mult)
qed

lemma shifted_range:
  assumes "\<bar>p::int\<bar> \<le> 1073741824" "n \<le> 15"
  shows "\<bar>p * 2 ^ n\<bar> \<le> 35184372088832"
proof -
  have "(2::int) ^ n \<le> 2 ^ 15" using assms(2) by (intro power_increasing) simp_all
  then have "\<bar>p\<bar> * 2 ^ n \<le> 1073741824 * 2 ^ 15"
    using assms(1) by (intro mult_mono) simp_all
  then show ?thesis by (simp add: abs_mult)
qed

lemma sint_scast_32_64: "sint (scast (w :: 32 word) :: 64 word) = sint w"
  by (rule sint_up_scast) (simp add: is_up)

lemma pmbus_linear11_value:
  assumes s: "\<bar>s\<bar> \<le> 1048576"
  shows "sint (pmbus_linear11_to_long v (word_of_int s)) = linear11_reference v s"
proof -
  define E :: s16 where "E = ucast (signed_drop_bit 11 (scast v :: s32))"
  define M :: s32 where
    "M = signed_drop_bit 5 (scast (ucast (push_bit 5 ((ucast v :: s32) AND 0x7ff)) :: s16) :: s32)"
  define val :: long where "val = scast (M * word_of_int s)"
  define y n where "y = linear11_mantissa v" and "n = linear11_exponent v"
  have E: "sint E = n" by (simp only: E_def n_def exponent_word)
  have M: "sint M = y" by (simp only: M_def y_def mantissa_word)
  have n: "- 16 \<le> n" "n \<le> 15" using linear11_exponent_range [of v] by (simp_all add: n_def)
  have y: "- 1024 \<le> y" "y \<le> 1023" using linear11_mantissa_range [of v] by (simp_all add: y_def)
  have p: "\<bar>y * s\<bar> \<le> 1073741824" using y s by (rule scaled_range)
  have "word_of_int (sint M) = M" by simp
  then have "M = word_of_int y" by (simp only: M)
  then have "M * word_of_int s = word_of_int (y * s)" by simp
  moreover have "sint (word_of_int (y * s) :: s32) = y * s"
    by (rule sint_wi32) (use p in linarith)+
  ultimately have val: "sint val = y * s" by (simp only: val_def sint_scast_32_64)
  have res: "pmbus_linear11_to_long v (word_of_int s) =
      (if 0 \<le> sint E then push_bit (nat (sint E)) val else signed_drop_bit (nat (- sint E)) val)"
    by (simp only: pmbus_linear11_to_long_def Let_def E_def M_def val_def)
  show ?thesis
  proof (cases "0 \<le> n")
    case True
    have "nat n \<le> 15" using n by simp
    with p have r: "\<bar>(y * s) * 2 ^ nat n\<bar> \<le> 35184372088832" by (rule shifted_range)
    have "word_of_int (sint val) = val" by simp
    then have "val = word_of_int (y * s)" by (simp only: val)
    then have "push_bit (nat n) val = word_of_int ((y * s) * 2 ^ nat n)" by (simp only: push_wi)
    moreover have "sint (word_of_int ((y * s) * 2 ^ nat n) :: long) = (y * s) * 2 ^ nat n"
      by (rule sint_wi64) (use r in linarith)+
    ultimately show ?thesis using True
      by (simp add: res E linear11_reference_def flip: y_def n_def)
  next
    case False
    have "sint (signed_drop_bit (nat (- n)) val) = (y * s) div 2 ^ nat (- n)"
      by (simp only: sint_signed_drop_bit_eq drop_bit_eq_div val)
    then show ?thesis using False
      by (simp add: res E linear11_reference_def flip: y_def n_def)
  qed
qed

section \<open>The exchange and the command, step by step\<close>

lemma frame_stored:
  "(replicate 64 (0::u8))[0 := a, Suc 0 := b, 2 := c] = frame a b c"
  by (simp add: frame_def numeral_eq_Suc)

lemma length_frame: "length (frame a b c) = 64"
  by (simp add: frame_def)

lemma length_response: "length (response (usb w) k) = 64"
  by (simp add: response_def Let_def)

lemma outs_append: "outs (xs @ ys) = outs xs @ outs ys"
  by (induction xs rule: outs.induct) simp_all

lemma events_since_append: "trace w' = trace w @ es \<Longrightarrow> events_since w w' = es"
  by (simp add: events_since_def)

lemma usb_send_recv_cmd_held:
  "usbdev_mutex w \<Longrightarrow> usb_send_recv_cmd data w = (USB_MUTEX_LOCKED_ERR, w)"
  by (simp add: usb_send_recv_cmd_def mutex_trylock_def)

lemma usb_send_recv_cmd_ret:
  "\<not> usbdev_mutex w \<Longrightarrow> fst (usb_send_recv_cmd data w) = exchange_ret (usb w) (ticks w)"
  by (simp add: usb_send_recv_cmd_def mutex_trylock_def usb_interrupt_msg_out_def
      usb_interrupt_msg_in_def memset_buf_def mutex_unlock_def exchange_ret_def Let_def)

lemma usb_send_recv_cmd_mutex:
  "usbdev_mutex (snd (usb_send_recv_cmd data w)) = usbdev_mutex w"
  by (simp add: usb_send_recv_cmd_def mutex_trylock_def usb_interrupt_msg_out_def
      usb_interrupt_msg_in_def memset_buf_def mutex_unlock_def Let_def)

lemma usb_send_recv_cmd_usb:
  "usb (snd (usb_send_recv_cmd data w)) = usb w"
  by (simp add: usb_send_recv_cmd_def mutex_trylock_def usb_interrupt_msg_out_def
      usb_interrupt_msg_in_def memset_buf_def mutex_unlock_def Let_def)

lemma usb_send_recv_cmd_ticks:
  "ticks (snd (usb_send_recv_cmd data w)) =
     (if usbdev_mutex w then ticks w
      else if fst (usb w (ticks w)) < 0 then Suc (ticks w)
      else Suc (Suc (ticks w)))"
  by (simp add: usb_send_recv_cmd_def mutex_trylock_def usb_interrupt_msg_out_def
      usb_interrupt_msg_in_def memset_buf_def mutex_unlock_def Let_def)

lemma usb_send_recv_cmd_trace:
  "trace (snd (usb_send_recv_cmd data w)) =
     trace w @
     (if usbdev_mutex w then []
      else if fst (usb w (ticks w)) < 0
        then [Lock, Out (usbdev data) (mem w (buf data)), Unlock]
        else [Lock, Out (usbdev data) (mem w (buf data)), Store (buf data), In (usbdev data),
              Unlock])"
  by (simp add: usb_send_recv_cmd_def mutex_trylock_def usb_interrupt_msg_out_def
      usb_interrupt_msg_in_def memset_buf_def mutex_unlock_def Let_def)

lemma usb_send_recv_cmd_mem:
  "mem (snd (usb_send_recv_cmd data w)) a =
     (if a = buf data \<and> \<not> usbdev_mutex w \<and> 0 \<le> fst (usb w (ticks w))
      then response (usb w) (Suc (ticks w)) else mem w a)"
  by (simp add: usb_send_recv_cmd_def mutex_trylock_def usb_interrupt_msg_out_def
      usb_interrupt_msg_in_def memset_buf_def mutex_unlock_def response_def Let_def)


lemma send_recv_cmd_impl_ret:
  "fst (send_recv_cmd_impl data addr opcode opdata w) =
     (if usbdev_mutex w then USB_MUTEX_LOCKED_ERR else exchange_ret (usb w) (ticks w))"
proof (cases "usbdev_mutex w")
  case True
  then show ?thesis
    by (simp add: send_recv_cmd_impl_def usb_send_recv_cmd_held store_buf_def memset_buf_def
        USB_MUTEX_LOCKED_ERR_def)
next
  case False
  then have "fst (usb_send_recv_cmd data
      (store_buf data 2 opdata (store_buf data 1 opcode (store_buf data 0 addr (memset_buf data w)))))
      = exchange_ret (usb w) (ticks w)"
    by (simp add: usb_send_recv_cmd_ret store_buf_def memset_buf_def exchange_ret_def)
  moreover have "exchange_ret (usb w) (ticks w) < 0 \<or> exchange_ret (usb w) (ticks w) = 0"
    by (simp add: exchange_ret_def)
  ultimately show ?thesis using False
    by (auto simp: send_recv_cmd_impl_def case_prod_beta)
qed

lemma send_recv_cmd_impl_mutex:
  "usbdev_mutex (snd (send_recv_cmd_impl data addr opcode opdata w)) = usbdev_mutex w"
  by (simp add: send_recv_cmd_impl_def case_prod_beta usb_send_recv_cmd_mutex store_buf_def
      memset_buf_def)

lemma send_recv_cmd_impl_usb:
  "usb (snd (send_recv_cmd_impl data addr opcode opdata w)) = usb w"
  by (simp add: send_recv_cmd_impl_def case_prod_beta usb_send_recv_cmd_usb store_buf_def
      memset_buf_def)

lemma send_recv_cmd_impl_ticks:
  "ticks (snd (send_recv_cmd_impl data addr opcode opdata w)) =
     (if usbdev_mutex w then ticks w
      else if fst (usb w (ticks w)) < 0 then Suc (ticks w)
      else Suc (Suc (ticks w)))"
  by (simp add: send_recv_cmd_impl_def case_prod_beta usb_send_recv_cmd_ticks store_buf_def
      memset_buf_def)

lemma send_recv_cmd_impl_trace:
  "trace (snd (send_recv_cmd_impl data addr opcode opdata w)) =
     trace w @ [Store (buf data), Store (buf data), Store (buf data), Store (buf data)] @
     (if usbdev_mutex w then []
      else if fst (usb w (ticks w)) < 0
        then [Lock, Out (usbdev data) (frame addr opcode opdata), Unlock]
        else [Lock, Out (usbdev data) (frame addr opcode opdata), Store (buf data),
              In (usbdev data), Unlock])"
  by (simp add: send_recv_cmd_impl_def case_prod_beta usb_send_recv_cmd_trace store_buf_def
      memset_buf_def frame_stored)

lemma send_recv_cmd_impl_mem:
  "mem (snd (send_recv_cmd_impl data addr opcode opdata w)) a =
     (if a = buf data
      then (if \<not> usbdev_mutex w \<and> 0 \<le> fst (usb w (ticks w))
            then response (usb w) (Suc (ticks w)) else frame addr opcode opdata)
      else mem w a)"
  by (simp add: send_recv_cmd_impl_def case_prod_beta usb_send_recv_cmd_mem store_buf_def
      memset_buf_def frame_stored)


lemma exchange_ret_neg_iff:
  "exchange_ret u k < 0 \<longleftrightarrow> fst (u k) < 0 \<or> fst (u (Suc k)) < 0"
  by (simp add: exchange_ret_def)

lemma exchange_ret_out_ok:
  "\<not> exchange_ret u k < 0 \<Longrightarrow> \<not> fst (u k) < 0"
  by (simp add: exchange_ret_def split: if_splits)

lemmas impl_simps =
  send_recv_cmd_impl_ret send_recv_cmd_impl_mutex send_recv_cmd_impl_usb
  send_recv_cmd_impl_ticks send_recv_cmd_impl_trace send_recv_cmd_impl_mem

lemma plus_Suc_numerals:
  "n + 2 = Suc (Suc n)"
  "n + 3 = Suc (Suc (Suc n))"
  "n + 4 = Suc (Suc (Suc (Suc n)))"
  "n + 5 = Suc (Suc (Suc (Suc (Suc n))))"
  by simp_all

lemmas cmd_simps =
  send_recv_cmd_def case_prod_beta impl_simps load_buf_def plus_Suc_numerals

lemma send_recv_cmd_ret:
  "fst (send_recv_cmd data addr opcode opdata result n w) =
     (if usbdev_mutex w then USB_MUTEX_LOCKED_ERR
      else if exchange_ret (usb w) (ticks w) < 0 then exchange_ret (usb w) (ticks w)
      else if response (usb w) (ticks w + 1) ! 1 = opcode then 0
      else if exchange_ret (usb w) (ticks w + 2) < 0 then exchange_ret (usb w) (ticks w + 2)
      else if exchange_ret (usb w) (ticks w + 4) < 0 then exchange_ret (usb w) (ticks w + 4)
      else if response (usb w) (ticks w + 5) ! 1 \<noteq> opcode then - ENODATA
      else 0)"
proof (cases "usbdev_mutex w")
  case True
  then show ?thesis by (simp add: cmd_simps USB_MUTEX_LOCKED_ERR_def)
next
  case free: False
  show ?thesis
  proof (cases "exchange_ret (usb w) (ticks w) < 0")
    case True
    with free show ?thesis by (simp add: cmd_simps)
  next
    case ok1: False
    note o1 = exchange_ret_out_ok [OF ok1]
    show ?thesis
    proof (cases "response (usb w) (ticks w + 1) ! 1 = opcode")
      case True
      with free ok1 o1 show ?thesis
        by (simp add: cmd_simps send_recv_cmd_copy_def split: option.splits)
    next
      case mis: False
      show ?thesis
      proof (cases "exchange_ret (usb w) (ticks w + 2) < 0")
        case True
        with free ok1 o1 mis show ?thesis by (simp add: cmd_simps)
      next
        case ok2: False
        note o2 = exchange_ret_out_ok [OF ok2]
        show ?thesis
        proof (cases "exchange_ret (usb w) (ticks w + 4) < 0")
          case True
          with free ok1 o1 mis ok2 o2 show ?thesis by (simp add: cmd_simps)
        next
          case ok3: False
          note o3 = exchange_ret_out_ok [OF ok3]
          from free ok1 o1 mis ok2 o2 ok3 o3 show ?thesis
            by (simp add: cmd_simps send_recv_cmd_copy_def ENODATA_def split: option.splits)
        qed
      qed
    qed
  qed
qed


lemma send_recv_cmd_copy_fields:
  "usbdev_mutex (snd (snd (send_recv_cmd_copy data result n w))) = usbdev_mutex w"
  "usb (snd (snd (send_recv_cmd_copy data result n w))) = usb w"
  "ticks (snd (snd (send_recv_cmd_copy data result n w))) = ticks w"
  "mem (snd (snd (send_recv_cmd_copy data result n w))) = mem w"
  by (simp_all add: send_recv_cmd_copy_def split: option.splits)

lemma send_recv_cmd_mutex:
  "usbdev_mutex (snd (snd (send_recv_cmd data addr opcode opdata result n w))) = usbdev_mutex w"
  by (simp add: send_recv_cmd_def case_prod_beta send_recv_cmd_impl_mutex load_buf_def
      send_recv_cmd_copy_fields)

lemma send_recv_cmd_usb:
  "usb (snd (snd (send_recv_cmd data addr opcode opdata result n w))) = usb w"
  by (simp add: send_recv_cmd_def case_prod_beta send_recv_cmd_impl_usb load_buf_def
      send_recv_cmd_copy_fields)

lemma send_recv_cmd_trace:
  "trace (snd (snd (send_recv_cmd data addr opcode opdata result n w))) = trace w @
     (if usbdev_mutex w
      then [Store (buf data), Store (buf data), Store (buf data), Store (buf data)]
      else if exchange_ret (usb w) (ticks w) < 0
      then exchange_events data (frame addr opcode opdata) (0 \<le> fst (usb w (ticks w)))
      else if response (usb w) (ticks w + 1) ! 1 = opcode
      then exchange_events data (frame addr opcode opdata) True @ [Load (buf data)]
           @ copy_events data result n
      else if exchange_ret (usb w) (ticks w + 2) < 0
      then exchange_events data (frame addr opcode opdata) True @ [Load (buf data)]
           @ exchange_events data (frame 0xfe 0x03 0x00) (0 \<le> fst (usb w (ticks w + 2)))
      else if exchange_ret (usb w) (ticks w + 4) < 0
      then exchange_events data (frame addr opcode opdata) True @ [Load (buf data)]
           @ exchange_events data (frame 0xfe 0x03 0x00) True
           @ exchange_events data (frame addr opcode opdata) (0 \<le> fst (usb w (ticks w + 4)))
      else exchange_events data (frame addr opcode opdata) True @ [Load (buf data)]
           @ exchange_events data (frame 0xfe 0x03 0x00) True
           @ exchange_events data (frame addr opcode opdata) True @ [Load (buf data)]
           @ (if response (usb w) (ticks w + 5) ! 1 \<noteq> opcode then []
              else copy_events data result n))"
proof (cases "usbdev_mutex w")
  case True
  then show ?thesis by (simp add: cmd_simps USB_MUTEX_LOCKED_ERR_def)
next
  case free: False
  show ?thesis
  proof (cases "exchange_ret (usb w) (ticks w) < 0")
    case True
    with free show ?thesis by (simp add: cmd_simps exchange_events_def)
  next
    case ok1: False
    note o1 = exchange_ret_out_ok [OF ok1]
    show ?thesis
    proof (cases "response (usb w) (ticks w + 1) ! 1 = opcode")
      case True
      with free ok1 o1 show ?thesis
        by (simp add: cmd_simps send_recv_cmd_copy_def exchange_events_def copy_events_def
            split: option.splits)
    next
      case mis: False
      show ?thesis
      proof (cases "exchange_ret (usb w) (ticks w + 2) < 0")
        case True
        with free ok1 o1 mis show ?thesis by (simp add: cmd_simps exchange_events_def)
      next
        case ok2: False
        note o2 = exchange_ret_out_ok [OF ok2]
        show ?thesis
        proof (cases "exchange_ret (usb w) (ticks w + 4) < 0")
          case True
          with free ok1 o1 mis ok2 o2 show ?thesis by (simp add: cmd_simps exchange_events_def)
        next
          case ok3: False
          note o3 = exchange_ret_out_ok [OF ok3]
          from free ok1 o1 mis ok2 o2 ok3 o3 show ?thesis
            by (simp add: cmd_simps send_recv_cmd_copy_def exchange_events_def copy_events_def
                split: option.splits)
        qed
      qed
    qed
  qed
qed

lemma send_recv_cmd_result:
  "fst (snd (send_recv_cmd data addr opcode opdata result n w)) =
     (if usbdev_mutex w \<or> exchange_ret (usb w) (ticks w) < 0 then result
      else if response (usb w) (ticks w + 1) ! 1 = opcode
      then copy_result (response (usb w) (ticks w + 1)) result n
      else if exchange_ret (usb w) (ticks w + 2) < 0 \<or> exchange_ret (usb w) (ticks w + 4) < 0
              \<or> response (usb w) (ticks w + 5) ! 1 \<noteq> opcode
      then result
      else copy_result (response (usb w) (ticks w + 5)) result n)"
proof (cases "usbdev_mutex w")
  case True
  then show ?thesis by (simp add: cmd_simps USB_MUTEX_LOCKED_ERR_def)
next
  case free: False
  show ?thesis
  proof (cases "exchange_ret (usb w) (ticks w) < 0")
    case True
    with free show ?thesis by (simp add: cmd_simps)
  next
    case ok1: False
    note o1 = exchange_ret_out_ok [OF ok1]
    show ?thesis
    proof (cases "response (usb w) (ticks w + 1) ! 1 = opcode")
      case True
      with free ok1 o1 show ?thesis
        by (simp add: cmd_simps send_recv_cmd_copy_def copy_result_def split: option.splits)
    next
      case mis: False
      show ?thesis
      proof (cases "exchange_ret (usb w) (ticks w + 2) < 0")
        case True
        with free ok1 o1 mis show ?thesis by (simp add: cmd_simps)
      next
        case ok2: False
        note o2 = exchange_ret_out_ok [OF ok2]
        show ?thesis
        proof (cases "exchange_ret (usb w) (ticks w + 4) < 0")
          case True
          with free ok1 o1 mis ok2 o2 show ?thesis by (simp add: cmd_simps)
        next
          case ok3: False
          note o3 = exchange_ret_out_ok [OF ok3]
          from free ok1 o1 mis ok2 o2 ok3 o3 show ?thesis
            by (simp add: cmd_simps send_recv_cmd_copy_def copy_result_def split: option.splits)
        qed
      qed
    qed
  qed
qed

lemma outs_exchange_events [simp]: "outs (exchange_events data f sent) = [f]"
  by (simp add: exchange_events_def)

lemma outs_copy_events [simp]: "outs (copy_events data result n) = []"
  by (simp add: copy_events_def)

lemma send_recv_cmd_outs:
  "outs (events_since w (snd (snd (send_recv_cmd data addr opcode opdata result n w)))) =
     (if usbdev_mutex w then []
      else if exchange_ret (usb w) (ticks w) < 0 \<or> response (usb w) (ticks w + 1) ! 1 = opcode
      then [frame addr opcode opdata]
      else if exchange_ret (usb w) (ticks w + 2) < 0
      then [frame addr opcode opdata, frame 0xfe 0x03 0x00]
      else [frame addr opcode opdata, frame 0xfe 0x03 0x00, frame addr opcode opdata])"
  by (simp add: events_since_def send_recv_cmd_trace outs_append)

lemma send_recv_cmd_ticks:
  "ticks (snd (snd (send_recv_cmd data addr opcode opdata result n w))) =
     (if usbdev_mutex w then ticks w
      else if fst (usb w (ticks w)) < 0 then ticks w + 1
      else if fst (usb w (ticks w + 1)) < 0 \<or> response (usb w) (ticks w + 1) ! 1 = opcode
      then ticks w + 2
      else if fst (usb w (ticks w + 2)) < 0 then ticks w + 3
      else if fst (usb w (ticks w + 3)) < 0 then ticks w + 4
      else if fst (usb w (ticks w + 4)) < 0 then ticks w + 5
      else ticks w + 6)"
proof (cases "usbdev_mutex w")
  case True
  then show ?thesis by (simp add: cmd_simps USB_MUTEX_LOCKED_ERR_def)
next
  case free: False
  show ?thesis
  proof (cases "exchange_ret (usb w) (ticks w) < 0")
    case True
    with free show ?thesis by (auto simp: cmd_simps exchange_ret_def split: if_splits)
  next
    case ok1: False
    note o1 = exchange_ret_out_ok [OF ok1]
    from ok1 have i1: "\<not> fst (usb w (Suc (ticks w))) < 0" by (simp add: exchange_ret_neg_iff)
    show ?thesis
    proof (cases "response (usb w) (ticks w + 1) ! 1 = opcode")
      case True
      with free ok1 o1 i1 show ?thesis
        by (simp add: cmd_simps send_recv_cmd_copy_def split: option.splits)
    next
      case mis: False
      show ?thesis
      proof (cases "exchange_ret (usb w) (ticks w + 2) < 0")
        case True
        with free ok1 o1 i1 mis show ?thesis
          by (auto simp: cmd_simps exchange_ret_def split: if_splits)
      next
        case ok2: False
        note o2 = exchange_ret_out_ok [OF ok2]
        from ok2 have i2: "\<not> fst (usb w (Suc (Suc (Suc (ticks w))))) < 0"
          by (simp add: exchange_ret_neg_iff)
        show ?thesis
        proof (cases "exchange_ret (usb w) (ticks w + 4) < 0")
          case True
          with free ok1 o1 i1 mis ok2 o2 i2 show ?thesis
            by (auto simp: cmd_simps exchange_ret_def split: if_splits)
        next
          case ok3: False
          note o3 = exchange_ret_out_ok [OF ok3]
          from free ok1 o1 i1 mis ok2 o2 i2 ok3 o3 show ?thesis
            by (simp add: cmd_simps send_recv_cmd_copy_def split: option.splits)
        qed
      qed
    qed
  qed
qed

lemma exchange_ret_same_codes:
  "exchange_ret (u(k := (fst (u k), hs))) j = exchange_ret u j"
  by (simp add: exchange_ret_def)

lemma response_elsewhere:
  "j \<noteq> k \<Longrightarrow> response (u(k := x)) j = response u j"
  by (simp add: response_def)

lemma send_recv_cmd_extends:
  "trace (snd (snd (send_recv_cmd data addr opcode opdata result n w))) =
     trace w @ events_since w (snd (snd (send_recv_cmd data addr opcode opdata result n w)))"
  by (subst send_recv_cmd_trace) (simp add: events_since_def send_recv_cmd_trace)

lemma events_since_trans:
  "trace w1 = trace w @ a \<Longrightarrow> trace w2 = trace w1 @ b \<Longrightarrow>
     events_since w w2 = events_since w w1 @ events_since w1 w2"
  by (simp add: events_since_def)

lemma frame_eq_iff: "frame a b c = frame a' b' c' \<longleftrightarrow> a = a' \<and> b = b' \<and> c = c'"
  by (simp add: frame_def)

lemma select_sends_no_reading:
  "frame 0x03 opcode 0x00 \<notin>
     set (outs (events_since w (snd (snd (send_recv_cmd data 0x02 0x00 rail None 0 w)))))"
  by (simp add: send_recv_cmd_outs frame_eq_iff)

lemma corsairpsu_read_err_neg: "corsairpsu_read_err ret < 0"
  by (simp add: corsairpsu_read_err_def EINVAL_def EOPNOTSUPP_def)

lemmas run_simps =
  case_prod_beta send_recv_cmd_ret send_recv_cmd_result send_recv_cmd_trace send_recv_cmd_ticks
  send_recv_cmd_mutex send_recv_cmd_usb events_since_def outs_append
  idle_world_def scripted_def exchange_ret_def response_def copy_result_def

lemma send_recv_cmd_never_guarded:
  "\<not> guarded False (events_since w (snd (snd (send_recv_cmd data addr opcode opdata result n w))))"
  by (simp add: send_recv_cmd_trace events_since_def exchange_events_def)

section \<open>Reads built on the command\<close>

lemma pmbus_linear11_scale_0: "pmbus_linear11_to_long v 0 = 0"
  by (simp add: pmbus_linear11_to_long_def Let_def)

lemma corsairpsu_read_value_ret:
  "fst (corsairpsu_read_value data opcode scale reading w) =
     (if fst (send_recv_cmd data 0x03 opcode 0x00 (Some (u16_bytes reading)) 2 w) < 0
      then corsairpsu_read_err (fst (send_recv_cmd data 0x03 opcode 0x00 (Some (u16_bytes reading)) 2 w))
      else 0)"
  by (simp add: corsairpsu_read_value_def case_prod_beta)

lemma corsairpsu_read_value_val:
  "fst (snd (corsairpsu_read_value data opcode scale reading w)) =
     (if fst (send_recv_cmd data 0x03 opcode 0x00 (Some (u16_bytes reading)) 2 w) < 0 then None
      else Some (pmbus_linear11_to_long
             (case fst (snd (send_recv_cmd data 0x03 opcode 0x00 (Some (u16_bytes reading)) 2 w)) of
                Some bs \<Rightarrow> le16 bs | None \<Rightarrow> reading) scale))"
  by (simp add: corsairpsu_read_value_def case_prod_beta)

lemma corsairpsu_read_value_world:
  "snd (snd (corsairpsu_read_value data opcode scale reading w)) =
     snd (snd (send_recv_cmd data 0x03 opcode 0x00 (Some (u16_bytes reading)) 2 w))"
  by (simp add: corsairpsu_read_value_def case_prod_beta)

lemma corsairpsu_read_rail_channel:
  "corsairpsu_read K data (quantity_type q) (quantity_attr K q) (rail_channel q r) reading w =
     corsairpsu_read_rail data (rail_index r) (quantity_opcode q) (quantity_scale q) reading w"
  by (cases q; cases r) (simp_all add: corsairpsu_read_def)

lemma rail_label:
  "quantity_labels q ! nat (rail_channel q r) = quantity_name q @ '' '' @ rail_name r"
  by (cases q; cases r)
    (simp_all add: corsairpsu_in_label_def corsairpsu_curr_label_def corsairpsu_power_label_def)

lemma fan_reads_zero:
  "fst (snd (corsairpsu_read K data hwmon_fan (hwmon_fan_input K) 0 reading w)) \<in> {None, Some 0}"
  by (simp add: corsairpsu_read_def corsairpsu_read_value_val pmbus_linear11_scale_0)

lemma le32_u32_bytes: "le32 (u32_bytes x) = x"
  unfolding le32_def u32_bytes_def
  apply simp
  apply (rule bit_word_eqI)
  apply (auto simp: bit_simps)
  subgoal for n by (cases "n < 24") (simp_all add: not_less)
  done

lemma u32_show_busy:
  "usbdev_mutex w \<Longrightarrow>
     fst (snd (u32_show data opcode reading w)) = decimal (unat reading) @ [CHR 0x0A]
     \<and> 0 < fst (u32_show data opcode reading w)"
  by (simp add: u32_show_def case_prod_beta send_recv_cmd_result le32_u32_bytes)

section \<open>Properties of the LINEAR11 decode\<close>

text \<open>
  C1. For every 16-bit value and each of the scales 0, 1000 and 1000000 the decode
  returns the reference value: the sign-extended 11-bit mantissa times the scale, then
  shifted left by the sign-extended 5-bit exponent when that is not negative and shifted
  right arithmetically by its negation otherwise. The value 0 decodes to 0, and a value
  with mantissa \<open>-1\<close> and exponent 0 decodes to the negated scale.
\<close>

theorem pmbus_linear11_to_long_reference:
  "s \<in> {0, 1000, 1000000} \<Longrightarrow>
     sint (pmbus_linear11_to_long v (word_of_int s)) = linear11_reference v s
     \<and> pmbus_linear11_to_long 0 (word_of_int s) = 0
     \<and> (linear11_mantissa v = - 1 \<and> linear11_exponent v = 0
          \<longrightarrow> sint (pmbus_linear11_to_long v (word_of_int s)) = - s)"
proof -
  assume s: "s \<in> {0, 1000, 1000000}"
  then have b: "\<bar>s\<bar> \<le> 1048576" by auto
  have r: "sint (pmbus_linear11_to_long v (word_of_int s)) = linear11_reference v s"
    using b by (rule pmbus_linear11_value)
  have z: "pmbus_linear11_to_long 0 (word_of_int s) = 0"
    by (simp add: pmbus_linear11_to_long_def Let_def)
  have m: "linear11_mantissa v = - 1 \<and> linear11_exponent v = 0 \<longrightarrow> linear11_reference v s = - s"
    by (simp add: linear11_reference_def)
  from r z m show ?thesis by simp
qed

theorem pmbus_linear11_to_long_reference_witness:
  "(1000000 :: int) \<in> {0, 1000, 1000000}
   \<and> linear11_mantissa 0x07FF = - 1 \<and> linear11_exponent 0x07FF = 0
   \<and> linear11_reference 0x07FF 1000000 = - 1000000
   \<and> sint (pmbus_linear11_to_long 0x07FF 1000000) = - 1000000
   \<and> pmbus_linear11_to_long 0 1000000 = 0
   \<and> (1000 :: int) \<in> {0, 1000, 1000000}
   \<and> linear11_mantissa 0xF801 = 1 \<and> linear11_exponent 0xF801 = - 1
   \<and> sint (pmbus_linear11_to_long 0xF801 1000) = 500
   \<and> linear11_mantissa 0x0AD6 = 726 \<and> linear11_exponent 0x0AD6 = 1
   \<and> sint (pmbus_linear11_to_long 0x0AD6 1000) = 1452000"
  using pmbus_linear11_to_long_reference [of 1000000 "0x07FF"]
    pmbus_linear11_to_long_reference [of 1000 "0xF801"]
    pmbus_linear11_to_long_reference [of 1000 "0x0AD6"]
  by (simp add: linear11_reference_def linear11_mantissa_def linear11_exponent_def)

text \<open>
  C2. The claim is that the decode with scale 0, as the fan channel calls it, returns
  the value mantissa times two to the exponent in whole units. The product with the
  scale is 0 whatever the value: read through \<open>corsairpsu_read\<close>, a fan that reports
  mantissa 1000 and exponent 0 (the bytes \<open>E8 03\<close>, 1000 RPM) yields 0.
\<close>

theorem fan_rpm_always_zero:
  "fst (corsairpsu_read linux_attrs psu0 hwmon_fan (hwmon_fan_input linux_attrs) 0 0
          (idle_world fan_device)) = 0
   \<and> fst (snd (corsairpsu_read linux_attrs psu0 hwmon_fan (hwmon_fan_input linux_attrs) 0 0
          (idle_world fan_device))) = Some 0
   \<and> fst (snd (send_recv_cmd psu0 0x03 0x90 0x00 (Some (u16_bytes 0)) 2 (idle_world fan_device)))
       = Some [0xE8, 0x03]
   \<and> le16 [0xE8, 0x03] = 0x03E8
   \<and> linear11_mantissa 0x03E8 = 1000 \<and> linear11_exponent 0x03E8 = 0
   \<and> pmbus_linear11_to_long 0x03E8 0 = 0"
  by (simp add: corsairpsu_read_def corsairpsu_read_value_ret corsairpsu_read_value_val
      send_recv_cmd_ret send_recv_cmd_result pmbus_linear11_scale_0 idle_world_def fan_device_def
      scripted_def exchange_ret_def response_def copy_result_def u16_bytes_def le16_def
      linear11_mantissa_def linear11_exponent_def linux_attrs_def)

section \<open>Properties of the command\<close>

text \<open>
  C3. When the response to a command echoes another opcode, \<open>send_recv_cmd\<close> sends
  the identify frame (page \<open>0xFE\<close>, opcode \<open>0x03\<close>, operand 0) once and, if that exchange
  returns no error, the original frame once more, and nothing after it. A failed
  handshake exchange ends the call with its return code, the original frame not being
  resent; a second wrong echo ends it with \<open>-ENODATA\<close>. A negative return code of any
  of the exchanges, the one for a held mutex included, is returned as it is, with no
  further transfer.
\<close>

theorem send_recv_cmd_one_recovery:
  "(case send_recv_cmd data addr opcode opdata result n w of (ret, res, w') \<Rightarrow>
      (usbdev_mutex w \<longrightarrow>
         ret = USB_MUTEX_LOCKED_ERR \<and> outs (events_since w w') = [])
    \<and> (\<not> usbdev_mutex w \<and> exchange_ret (usb w) (ticks w) < 0 \<longrightarrow>
         ret = exchange_ret (usb w) (ticks w)
         \<and> outs (events_since w w') = [frame addr opcode opdata])
    \<and> (\<not> usbdev_mutex w \<and> \<not> exchange_ret (usb w) (ticks w) < 0
         \<and> response (usb w) (ticks w + 1) ! 1 \<noteq> opcode \<longrightarrow>
         (if exchange_ret (usb w) (ticks w + 2) < 0
          then ret = exchange_ret (usb w) (ticks w + 2)
               \<and> outs (events_since w w') = [frame addr opcode opdata, frame 0xfe 0x03 0x00]
          else outs (events_since w w') =
                 [frame addr opcode opdata, frame 0xfe 0x03 0x00, frame addr opcode opdata]
               \<and> ret = (if exchange_ret (usb w) (ticks w + 4) < 0
                         then exchange_ret (usb w) (ticks w + 4)
                         else if response (usb w) (ticks w + 5) ! 1 \<noteq> opcode then - ENODATA
                         else 0))))"
  by (simp add: case_prod_beta send_recv_cmd_ret send_recv_cmd_outs)

theorem send_recv_cmd_one_recovery_witness:
  "(\<not> usbdev_mutex (idle_world stubborn_device)
    \<and> \<not> exchange_ret (usb (idle_world stubborn_device)) (ticks (idle_world stubborn_device)) < 0
    \<and> response (usb (idle_world stubborn_device)) (ticks (idle_world stubborn_device) + 1) ! 1
        \<noteq> 0x8D
    \<and> \<not> exchange_ret (usb (idle_world stubborn_device)) (ticks (idle_world stubborn_device) + 2)
          < 0
    \<and> (case send_recv_cmd psu0 0x03 0x8D 0x00 (Some [0, 0]) 2 (idle_world stubborn_device) of
         (ret, res, w') \<Rightarrow>
           ret = - ENODATA
           \<and> outs (events_since (idle_world stubborn_device) w') =
               [frame 0x03 0x8D 0x00, frame 0xfe 0x03 0x00, frame 0x03 0x8D 0x00]))
   \<and> (exchange_ret (usb (idle_world faulty_device)) (ticks (idle_world faulty_device) + 2) < 0
    \<and> (case send_recv_cmd psu0 0x03 0x8D 0x00 (Some [0, 0]) 2 (idle_world faulty_device) of
         (ret, res, w') \<Rightarrow>
           ret = - 71
           \<and> outs (events_since (idle_world faulty_device) w') =
               [frame 0x03 0x8D 0x00, frame 0xfe 0x03 0x00]))
   \<and> (exchange_ret (usb (idle_world unplugged_device)) (ticks (idle_world unplugged_device)) < 0
    \<and> (case send_recv_cmd psu0 0x03 0x8D 0x00 (Some [0, 0]) 2 (idle_world unplugged_device) of
         (ret, res, w') \<Rightarrow>
           ret = - 19
           \<and> outs (events_since (idle_world unplugged_device) w') = [frame 0x03 0x8D 0x00]))
   \<and> (usbdev_mutex busy_world
    \<and> (case send_recv_cmd psu0 0x03 0x8D 0x00 (Some [0, 0]) 2 busy_world of
         (ret, res, w') \<Rightarrow>
           ret = USB_MUTEX_LOCKED_ERR \<and> outs (events_since busy_world w') = []))"
  using
    send_recv_cmd_one_recovery [where data = psu0 and addr = "0x03" and opcode = "0x8D"
      and opdata = "0x00" and result = "Some [0, 0]" and n = 2 and w = "idle_world stubborn_device"]
    send_recv_cmd_one_recovery [where data = psu0 and addr = "0x03" and opcode = "0x8D"
      and opdata = "0x00" and result = "Some [0, 0]" and n = 2 and w = "idle_world faulty_device"]
    send_recv_cmd_one_recovery [where data = psu0 and addr = "0x03" and opcode = "0x8D"
      and opdata = "0x00" and result = "Some [0, 0]" and n = 2 and w = "idle_world unplugged_device"]
    send_recv_cmd_one_recovery [where data = psu0 and addr = "0x03" and opcode = "0x8D"
      and opdata = "0x00" and result = "Some [0, 0]" and n = 2 and w = busy_world]
  by (simp add: case_prod_beta idle_world_def busy_world_def mutex_trylock_def stubborn_device_def
      faulty_device_def unplugged_device_def scripted_def exchange_ret_def response_def)

text \<open>
  C10. In the recovery the handshake is judged by the return code of its exchange
  alone. When the first response echoes another opcode and the handshake exchange
  returns no error, the original frame is sent again; and whatever bytes the device
  delivers as the handshake response, the return code, the copied result and the frames
  sent are the same.
\<close>

theorem handshake_response_not_inspected:
  "\<not> usbdev_mutex w \<Longrightarrow> \<not> exchange_ret (usb w) (ticks w) < 0 \<Longrightarrow>
   response (usb w) (ticks w + 1) ! 1 \<noteq> opcode \<Longrightarrow>
   \<not> exchange_ret (usb w) (ticks w + 2) < 0 \<Longrightarrow>
     outs (events_since w (snd (snd (send_recv_cmd data addr opcode opdata result n w)))) =
       [frame addr opcode opdata, frame 0xfe 0x03 0x00, frame addr opcode opdata]
     \<and> (\<forall>hs. (case send_recv_cmd data addr opcode opdata result n
                      (w\<lparr>usb := (usb w)(ticks w + 3 := (fst (usb w (ticks w + 3)), hs))\<rparr>) of
                 (ret, res, w') \<Rightarrow>
                   ret = fst (send_recv_cmd data addr opcode opdata result n w)
                   \<and> res = fst (snd (send_recv_cmd data addr opcode opdata result n w))
                   \<and> outs (events_since
                             (w\<lparr>usb := (usb w)(ticks w + 3 := (fst (usb w (ticks w + 3)), hs))\<rparr>)
                             w') =
                       [frame addr opcode opdata, frame 0xfe 0x03 0x00, frame addr opcode opdata]))"
  by (simp add: case_prod_beta send_recv_cmd_ret send_recv_cmd_outs send_recv_cmd_result
      exchange_ret_same_codes response_elsewhere)

theorem handshake_response_not_inspected_witness:
  "\<not> usbdev_mutex (idle_world forgetful_device)
   \<and> \<not> exchange_ret (usb (idle_world forgetful_device)) (ticks (idle_world forgetful_device)) < 0
   \<and> response (usb (idle_world forgetful_device)) (ticks (idle_world forgetful_device) + 1) ! 1
       \<noteq> 0x8D
   \<and> \<not> exchange_ret (usb (idle_world forgetful_device)) (ticks (idle_world forgetful_device) + 2)
         < 0
   \<and> response (usb (idle_world forgetful_device)) (ticks (idle_world forgetful_device) + 3) ! 1
       \<noteq> 0x03
   \<and> fst (send_recv_cmd psu0 0x03 0x8D 0x00 (Some [0, 0]) 2 (idle_world forgetful_device)) = 0
   \<and> fst (snd (send_recv_cmd psu0 0x03 0x8D 0x00 (Some [0, 0]) 2 (idle_world forgetful_device)))
       = Some [0xD6, 0x0A]
   \<and> outs (events_since (idle_world forgetful_device)
        (snd (snd (send_recv_cmd psu0 0x03 0x8D 0x00 (Some [0, 0]) 2 (idle_world forgetful_device)))))
      = [frame 0x03 0x8D 0x00, frame 0xfe 0x03 0x00, frame 0x03 0x8D 0x00]"
  using handshake_response_not_inspected [where data = psu0 and addr = "0x03"
      and opcode = "0x8D" and opdata = "0x00" and result = "Some [0, 0]" and n = 2
      and w = "idle_world forgetful_device"]
  by (simp add: idle_world_def forgetful_device_def scripted_def exchange_ret_def response_def
      send_recv_cmd_ret send_recv_cmd_result copy_result_def)

section \<open>Properties of the lock and the buffer\<close>

lemma in_flight_held: "s \<in> set (in_flight a w) \<Longrightarrow> \<not> usbdev_mutex w \<Longrightarrow> usbdev_mutex s"
  by (auto simp: in_flight_def Let_def mutex_trylock_def usb_interrupt_msg_out_def
      usb_interrupt_msg_in_def memset_buf_def)

text \<open>
  The claim C4 says that every device has a lock of its own, so that an exchange in
  flight on one device never makes an exchange on another device busy. With the one
  mutex of the module it does: while an exchange on the first handle has done its
  outbound transfer, an exchange on the second handle, a different device with a
  different buffer, returns \<open>USB_MUTEX_LOCKED_ERR\<close>.
\<close>

theorem per_device_lock_counterexample:
  "usbdev psu0 \<noteq> usbdev psu1 \<and> buf psu0 \<noteq> buf psu1
   \<and> fst (usb_send_recv_cmd psu1 (in_flight psu0 (idle_world healthy_device) ! 1))
       = USB_MUTEX_LOCKED_ERR"
  by (simp add: psu0_def psu1_def idle_world_def in_flight_def Let_def mutex_trylock_def
      usb_interrupt_msg_out_def usb_send_recv_cmd_def)

text \<open>
  C4, as amended. The lock is one mutex for all attached devices: while an exchange on
  any device is in flight, an exchange begun on any device, the same or another, returns
  \<open>USB_MUTEX_LOCKED_ERR\<close> and changes nothing; so at most one exchange is in flight over
  all devices.
\<close>

theorem one_mutex_for_all_devices:
  "\<not> usbdev_mutex w \<Longrightarrow> s \<in> set (in_flight a w) \<Longrightarrow>
     usb_send_recv_cmd b s = (USB_MUTEX_LOCKED_ERR, s)"
  by (simp add: in_flight_held usb_send_recv_cmd_held)

theorem one_mutex_for_all_devices_witness:
  "\<not> usbdev_mutex (idle_world healthy_device)
   \<and> in_flight psu0 (idle_world healthy_device) ! 3 \<in> set (in_flight psu0 (idle_world healthy_device))
   \<and> usb_send_recv_cmd psu1 (in_flight psu0 (idle_world healthy_device) ! 3) =
       (USB_MUTEX_LOCKED_ERR, in_flight psu0 (idle_world healthy_device) ! 3)"
  using one_mutex_for_all_devices [where w = "idle_world healthy_device"
      and s = "in_flight psu0 (idle_world healthy_device) ! 3" and a = psu0 and b = psu1]
  by (simp add: idle_world_def in_flight_def Let_def)

text \<open>
  C5. The claim is that the buffer is stored into and read only between taking and
  releasing the mutex. A successful read of the first temperature builds its frame
  with four stores before the mutex is taken, and reads the echoed opcode and copies
  the result after the mutex is released.
\<close>

theorem buffer_touched_outside_lock:
  "fst (send_recv_cmd psu0 0x03 0x8D 0x00 (Some [0, 0]) 2 (idle_world healthy_device)) = 0
   \<and> events_since (idle_world healthy_device)
         (snd (snd (send_recv_cmd psu0 0x03 0x8D 0x00 (Some [0, 0]) 2 (idle_world healthy_device))))
       = [Store 0, Store 0, Store 0, Store 0, Lock, Out 0 (frame 0x03 0x8D 0x00), Store 0, In 0,
          Unlock, Load 0, Load 0]
   \<and> \<not> guarded False (events_since (idle_world healthy_device)
         (snd (snd (send_recv_cmd psu0 0x03 0x8D 0x00 (Some [0, 0]) 2 (idle_world healthy_device)))))"
  by (simp add: send_recv_cmd_ret send_recv_cmd_trace events_since_def idle_world_def
      healthy_device_def scripted_def exchange_ret_def response_def psu0_def exchange_events_def
      copy_events_def)

text \<open>
  C6. An exchange that has taken the mutex releases it on each of its three ways out:
  after a failed outbound transfer, after a failed inbound transfer and after success.
  The mutex is free afterwards, and \<open>Unlock\<close> is the last event of the exchange.
\<close>

theorem usb_send_recv_cmd_releases:
  "\<not> usbdev_mutex w \<Longrightarrow>
     (case usb_send_recv_cmd data w of (ret, w') \<Rightarrow>
        \<not> usbdev_mutex w'
        \<and> ret = exchange_ret (usb w) (ticks w)
        \<and> events_since w w' =
            (if fst (usb w (ticks w)) < 0
             then [Lock, Out (usbdev data) (mem w (buf data)), Unlock]
             else [Lock, Out (usbdev data) (mem w (buf data)), Store (buf data),
                   In (usbdev data), Unlock]))"
  by (simp add: case_prod_beta usb_send_recv_cmd_mutex usb_send_recv_cmd_ret
      usb_send_recv_cmd_trace events_since_def)

theorem usb_send_recv_cmd_releases_witness:
  "(\<not> usbdev_mutex (idle_world unplugged_device)
    \<and> (case usb_send_recv_cmd psu0 (idle_world unplugged_device) of
         (ret, w') \<Rightarrow> \<not> usbdev_mutex w' \<and> ret = - 19
           \<and> events_since (idle_world unplugged_device) w' =
               [Lock, Out 0 (replicate 64 0), Unlock]))
   \<and> (\<not> usbdev_mutex (idle_world mute_device)
    \<and> (case usb_send_recv_cmd psu0 (idle_world mute_device) of
         (ret, w') \<Rightarrow> \<not> usbdev_mutex w' \<and> ret = - 110
           \<and> events_since (idle_world mute_device) w' =
               [Lock, Out 0 (replicate 64 0), Store 0, In 0, Unlock]))
   \<and> (\<not> usbdev_mutex (idle_world healthy_device)
    \<and> (case usb_send_recv_cmd psu0 (idle_world healthy_device) of
         (ret, w') \<Rightarrow> \<not> usbdev_mutex w' \<and> ret = 0
           \<and> events_since (idle_world healthy_device) w' =
               [Lock, Out 0 (replicate 64 0), Store 0, In 0, Unlock]))"
  using usb_send_recv_cmd_releases [where w = "idle_world unplugged_device" and data = psu0]
    usb_send_recv_cmd_releases [where w = "idle_world mute_device" and data = psu0]
    usb_send_recv_cmd_releases [where w = "idle_world healthy_device" and data = psu0]
  by (simp add: idle_world_def scripted_def psu0_def exchange_ret_def case_prod_beta
      unplugged_device_def mute_device_def healthy_device_def)

text \<open>
  C7. An exchange begun while the mutex is held returns \<open>USB_MUTEX_LOCKED_ERR\<close> at
  once: the state is left as it was, no call of the oracle is consumed and no event is
  added, so neither transfer takes place.
\<close>

theorem usb_send_recv_cmd_busy:
  "usbdev_mutex w \<Longrightarrow>
     usb_send_recv_cmd data w = (USB_MUTEX_LOCKED_ERR, w)
     \<and> ticks (snd (usb_send_recv_cmd data w)) = ticks w
     \<and> events_since w (snd (usb_send_recv_cmd data w)) = []"
  by (simp add: usb_send_recv_cmd_held events_since_def)

theorem usb_send_recv_cmd_busy_witness:
  "usbdev_mutex busy_world
   \<and> usb_send_recv_cmd psu0 busy_world = (- 99, busy_world)
   \<and> events_since busy_world (snd (usb_send_recv_cmd psu0 busy_world)) = []"
  using usb_send_recv_cmd_busy [where w = busy_world and data = psu0]
  by (simp add: busy_world_def idle_world_def mutex_trylock_def USB_MUTEX_LOCKED_ERR_def
      events_since_def)

section \<open>Properties of the reads\<close>

text \<open>
  C8. A read of the voltage, current or power of the 12V, 5V or 3.3V rail first runs
  the selection command (page \<open>0x02\<close>, opcode \<open>0x00\<close>, operand 0, 1 or 2). What the read
  adds to the trace starts with the events of the selection, the first frame sent, if
  any is sent, is the selection frame, and the selection sends no reading frame
  (page \<open>0x03\<close>, opcode \<open>0x8B\<close>, \<open>0x8C\<close> or \<open>0x96\<close>). When the selection fails the read
  fails, stores no value and does nothing more, so that no reading frame is sent; when
  it succeeds the rest of the read is the reading command run in the state the selection
  left.
\<close>

theorem rail_selected_before_reading:
  "(let sel = send_recv_cmd data 0x02 0x00 (rail_index r) None 0 w;
        w1 = snd (snd sel);
        rd = corsairpsu_read K data (quantity_type q) (quantity_attr K q) (rail_channel q r)
               reading w;
        w' = snd (snd rd)
    in events_since w w' = events_since w w1 @ events_since w1 w'
       \<and> (outs (events_since w w') = []
            \<or> hd (outs (events_since w w')) = frame 0x02 0x00 (rail_index r))
       \<and> frame 0x03 (quantity_opcode q) 0x00 \<notin> set (outs (events_since w w1))
       \<and> (fst sel < 0 \<longrightarrow>
             fst rd < 0 \<and> fst (snd rd) = None \<and> w' = w1
             \<and> frame 0x03 (quantity_opcode q) 0x00 \<notin> set (outs (events_since w w')))
       \<and> (\<not> fst sel < 0 \<longrightarrow>
             events_since w1 w' =
               events_since w1
                 (snd (snd (send_recv_cmd data 0x03 (quantity_opcode q) 0x00
                              (Some (u16_bytes reading)) 2 w1)))))"
proof -
  define sel where "sel = send_recv_cmd data 0x02 0x00 (rail_index r) None 0 w"
  define w1 where "w1 = snd (snd sel)"
  define rd where "rd = corsairpsu_read K data (quantity_type q) (quantity_attr K q)
    (rail_channel q r) reading w"
  define w' where "w' = snd (snd rd)"
  define w2 where "w2 = snd (snd (send_recv_cmd data 0x03 (quantity_opcode q) 0x00
    (Some (u16_bytes reading)) 2 w1))"
  have rd: "rd = (if fst sel < 0 then (corsairpsu_read_err (fst sel), None, w1)
                  else corsairpsu_read_value data (quantity_opcode q) (quantity_scale q) reading w1)"
    by (simp add: rd_def corsairpsu_read_rail_channel corsairpsu_read_rail_def case_prod_beta
        sel_def w1_def)
  have w': "w' = (if fst sel < 0 then w1 else w2)"
    by (simp add: w'_def rd corsairpsu_read_value_world w2_def)
  have t1: "trace w1 = trace w @ events_since w w1"
    unfolding w1_def sel_def by (rule send_recv_cmd_extends)
  have t2: "trace w2 = trace w1 @ events_since w1 w2"
    unfolding w2_def by (rule send_recv_cmd_extends)
  have t': "trace w' = trace w1 @ events_since w1 w'"
    using t2 by (simp add: w' events_since_def)
  have split: "events_since w w' = events_since w w1 @ events_since w1 w'"
    using t1 t' by (rule events_since_trans)
  have no: "frame 0x03 (quantity_opcode q) 0x00 \<notin> set (outs (events_since w w1))"
    unfolding w1_def sel_def by (rule select_sends_no_reading)
  have first: "outs (events_since w w1) = []
      \<or> hd (outs (events_since w w1)) = frame 0x02 0x00 (rail_index r)"
    unfolding w1_def sel_def by (simp add: send_recv_cmd_outs)
  have idle: "outs (events_since w w1) = [] \<Longrightarrow> fst sel < 0"
    unfolding w1_def sel_def
    by (simp add: send_recv_cmd_outs send_recv_cmd_ret USB_MUTEX_LOCKED_ERR_def split: if_splits)
  have hd: "outs (events_since w w') = []
      \<or> hd (outs (events_since w w')) = frame 0x02 0x00 (rail_index r)"
  proof (cases "outs (events_since w w1) = []")
    case True
    then have "w' = w1" using idle w' by simp
    with True show ?thesis by simp
  next
    case False
    with first show ?thesis by (simp add: split outs_append)
  qed
  have fail: "fst sel < 0 \<Longrightarrow> fst rd < 0 \<and> fst (snd rd) = None \<and> w' = w1
      \<and> frame 0x03 (quantity_opcode q) 0x00 \<notin> set (outs (events_since w w'))"
    using no by (simp add: rd w' corsairpsu_read_err_neg)
  have ok: "\<not> fst sel < 0 \<Longrightarrow> events_since w1 w' = events_since w1 w2"
    by (simp add: w')
  from split hd no fail ok show ?thesis
    unfolding Let_def sel_def [symmetric] w1_def [symmetric] rd_def [symmetric] w'_def [symmetric]
      w2_def [symmetric]
    by blast
qed

theorem rail_selected_before_reading_witness:
  "\<not> fst (send_recv_cmd psu0 0x02 0x00 (rail_index Rail_5V) None 0 (idle_world rail_device)) < 0
   \<and> corsairpsu_curr_label ! nat (rail_channel Current Rail_5V) = ''current 5v''
   \<and> fst (corsairpsu_read linux_attrs psu0 hwmon_curr 1 1 0 (idle_world rail_device)) = 0
   \<and> outs (events_since (idle_world rail_device)
         (snd (snd (corsairpsu_read linux_attrs psu0 hwmon_curr 1 1 0 (idle_world rail_device)))))
       = [frame 0x02 0x00 0x01, frame 0x03 0x8C 0x00]
   \<and> fst (send_recv_cmd psu0 0x02 0x00 (rail_index Rail_5V) None 0 (idle_world unplugged_device)) < 0
   \<and> fst (corsairpsu_read linux_attrs psu0 hwmon_curr 1 1 0 (idle_world unplugged_device)) < 0
   \<and> fst (snd (corsairpsu_read linux_attrs psu0 hwmon_curr 1 1 0 (idle_world unplugged_device)))
       = None
   \<and> outs (events_since (idle_world unplugged_device)
         (snd (snd (corsairpsu_read linux_attrs psu0 hwmon_curr 1 1 0 (idle_world unplugged_device)))))
       = [frame 0x02 0x00 0x01]"
  using rail_selected_before_reading [where K = linux_attrs and data = psu0 and q = Current
      and r = Rail_5V and reading = 0 and w = "idle_world rail_device"]
    rail_selected_before_reading [where K = linux_attrs and data = psu0 and q = Current
      and r = Rail_5V and reading = 0 and w = "idle_world unplugged_device"]
  by (simp add: Let_def linux_attrs_def corsairpsu_read_def corsairpsu_read_rail_def
      corsairpsu_read_value_def corsairpsu_read_err_def run_simps rail_device_def
      unplugged_device_def USB_MUTEX_LOCKED_ERR_def EOPNOTSUPP_def corsairpsu_curr_label_def)

text \<open>
  C9. The claim is that no read shows a value when its exchange failed, the custom
  attributes included. \<open>u32_show\<close> drops the return code of \<open>send_recv_cmd\<close>: with the
  mutex held the command fails with \<open>USB_MUTEX_LOCKED_ERR\<close>, and \<open>total_uptime_show\<close>
  still prints the content its local variable happened to have, here \<open>0xDEADBEEF\<close>, and
  returns the length of the text.
\<close>

theorem u32_show_prints_after_failure:
  "usbdev_mutex busy_world
   \<and> fst (send_recv_cmd psu0 0x03 0xD1 0x00 (Some (u32_bytes 0xDEADBEEF)) 4 busy_world)
       = USB_MUTEX_LOCKED_ERR
   \<and> fst (total_uptime_show psu0 0xDEADBEEF busy_world) = 11
   \<and> fst (snd (total_uptime_show psu0 0xDEADBEEF busy_world)) = ''3735928559'' @ [CHR 0x0A]"
  by (simp add: total_uptime_show_def u32_show_def case_prod_beta send_recv_cmd_ret
      send_recv_cmd_result busy_world_def idle_world_def mutex_trylock_def u32_bytes_def le32_def)

end
